theory Spec2Isabelle
  imports Complex_Main "HOL-Library.Word"
begin

section \<open>Numbers and typed arrays of main.js\<close>

text \<open>
  The visualizer (src/main.js) computes with JavaScript numbers. They are modelled as
  exact reals together with the value NaN, which is what JavaScript produces where the
  code reads a typed array out of range (\<open>undefined\<close> in arithmetic) or divides 0 by 0.
  The operations of this section are exact; the rounding of doubles and of the
  Float32Array that holds the vertex positions comes with the section on IEEE 754
  arithmetic below. The infinities are not modelled: no divisor of the program is 0 unless
  its dividend is 0 as well.
\<close>

datatype number = Num real | NaN

fun add :: "number \<Rightarrow> number \<Rightarrow> number" where
  "add (Num a) (Num b) = Num (a + b)"
| "add _ _ = NaN"

fun sub :: "number \<Rightarrow> number \<Rightarrow> number" where
  "sub (Num a) (Num b) = Num (a - b)"
| "sub _ _ = NaN"

fun mul :: "number \<Rightarrow> number \<Rightarrow> number" where
  "mul (Num a) (Num b) = Num (a * b)"
| "mul _ _ = NaN"

text \<open>\<open>a / b\<close>. The only zero divisor in main.js is the length of an empty array, under
  the sum of that array, which is 0: the quotient is NaN.\<close>

fun quot :: "number \<Rightarrow> number \<Rightarrow> number" where
  "quot (Num a) (Num b) = (if b = 0 then NaN else Num (a / b))"
| "quot _ _ = NaN"

text \<open>\<open>Math.sqrt\<close>: NaN below 0.\<close>

fun Math_sqrt :: "number \<Rightarrow> number" where
  "Math_sqrt (Num a) = (if a < 0 then NaN else Num (sqrt a))"
| "Math_sqrt NaN = NaN"

text \<open>An element of a \<open>Uint8Array\<close> is a byte; read as a number it is its unsigned
  value.\<close>

type_synonym byte = "8 word"

definition byteNum :: "byte \<Rightarrow> number" where
  "byteNum v = Num (real (unat v))"

text \<open>\<open>new Uint8Array(n)\<close>: n zero bytes.\<close>

definition newUint8Array :: "nat \<Rightarrow> byte list" where
  "newUint8Array n = replicate n 0"

text \<open>\<open>a[i % a.length]\<close> on a \<open>Uint8Array\<close>, as a number: with an empty array the
  index \<open>i % 0\<close> is NaN, the element is \<open>undefined\<close> and every arithmetic use of it is
  NaN. The index of a non-empty array is \<open>i mod length a\<close>.\<close>

definition wrapIndex :: "byte list \<Rightarrow> nat \<Rightarrow> nat option" where
  "wrapIndex a i = (if a = [] then None else Some (i mod length a))"

definition readByte :: "byte list \<Rightarrow> nat option \<Rightarrow> number" where
  "readByte a k =
     (case k of
        None \<Rightarrow> NaN
      | Some j \<Rightarrow> if j < length a then byteNum (a ! j) else NaN)"

text \<open>Reading a \<open>Float32Array\<close> at an index: \<open>undefined\<close>, NaN in arithmetic, out of
  range. Writing out of range is ignored, which is what \<open>list_update\<close> does.\<close>

definition readFloat :: "number list \<Rightarrow> nat \<Rightarrow> number" where
  "readFloat a j = (if j < length a then a ! j else NaN)"

section \<open>The mesh\<close>

text \<open>
  The geometry of the sphere, as three.js holds it: the position attribute is a flat
  array of 3 numbers per vertex with its vertex count, and \<open>userData.originalPositions\<close>
  is the rest pose, absent until the first tick.
\<close>

record geometry =
  array :: "number list"
  count :: nat
  originalPositions :: "number list option"
  needsUpdate :: bool

text \<open>The colour of the material: the hexadecimal colour it is created with, then the
  arguments \<open>getColorFromVolume\<close> hands to \<open>THREE.Color.setHSL\<close>, which does the
  conversion to RGB inside three.js.\<close>

datatype color = Hex nat | HSL number number number

record mesh =
  geometry :: geometry
  scale :: number
  material_color :: color

text \<open>A position attribute of three.js holds 3 components for each of its vertices, and
  a rest pose, once taken, is a copy of that array.\<close>

definition wf_geometry :: "geometry \<Rightarrow> bool" where
  "wf_geometry g \<longleftrightarrow>
     length (array g) = 3 * count g \<and>
     (case originalPositions g of None \<Rightarrow> True | Some r \<Rightarrow> length r = length (array g))"

section \<open>One tick: the body of \<open>animate\<close>\<close>

definition radiusScaleFactor :: number where
  "radiusScaleFactor = Num (15 / 1000)"

definition waveformScaleFactor :: number where
  "waveformScaleFactor = Num (35 / 1000)"

text \<open>\<open>frequencyData.reduce((a, b) => a + b, 0) / frequencyData.length\<close>\<close>

definition averageFrequency :: "byte list \<Rightarrow> number" where
  "averageFrequency frequencyData =
     quot (foldl (\<lambda>a b. add a (byteNum b)) (Num 0) frequencyData)
            (Num (real (length frequencyData)))"

text \<open>\<open>timeDomainData[i % timeDomainData.length] / 128 - 1\<close>\<close>

definition timeDomainValue :: "byte list \<Rightarrow> nat \<Rightarrow> number" where
  "timeDomainValue timeDomainData i =
     sub (quot (readByte timeDomainData (wrapIndex timeDomainData i)) (Num 128)) (Num 1)"

text \<open>\<open>1 + timeDomainValue * waveformScaleFactor\<close>, the factor of all three axes of
  vertex i.\<close>

definition waveFactor :: "byte list \<Rightarrow> nat \<Rightarrow> number" where
  "waveFactor timeDomainData i =
     add (Num 1) (mul (timeDomainValue timeDomainData i) waveformScaleFactor)"

text \<open>The loop over the vertices, from vertex i on: \<open>positions\<close> is the live array that
  is being written, \<open>orig\<close> the rest pose that is read.\<close>

function deformLoop ::
  "nat \<Rightarrow> nat \<Rightarrow> number list \<Rightarrow> byte list \<Rightarrow> number list \<Rightarrow> number list" where
  "deformLoop i n orig timeDomainData positions =
     (if i < n then
        let index = i * 3;
            f = waveFactor timeDomainData i;
            p0 = positions[index := mul (readFloat orig index) f];
            p1 = p0[index + 1 := mul (readFloat orig (index + 1)) f];
            p2 = p1[index + 2 := mul (readFloat orig (index + 2)) f]
        in deformLoop (i + 1) n orig timeDomainData p2
      else positions)"
  by pat_completeness auto
termination
  by (relation "measure (\<lambda>(i, n, orig, timeDomainData, positions). n - i)") auto

declare deformLoop.simps [simp del]

text \<open>Lines 115 to 131 and 138: the rest pose is the cached one or, when there is none, a
  copy (\<open>slice\<close>) of the live array, which is then cached; the loop writes the live array.\<close>

definition restPose :: "geometry \<Rightarrow> number list" where
  "restPose g = (case originalPositions g of Some r \<Rightarrow> r | None \<Rightarrow> array g)"

definition deform :: "byte list \<Rightarrow> geometry \<Rightarrow> geometry" where
  "deform timeDomainData g =
     (let orig = restPose g;
          g1 = (case originalPositions g of
                  None \<Rightarrow> g\<lparr>originalPositions := Some orig\<rparr>
                | Some r \<Rightarrow> g)
      in g1\<lparr>array := deformLoop 0 (count g1) orig timeDomainData (array g1),
            needsUpdate := True\<rparr>)"

text \<open>\<open>Math.sqrt(frequencyData.reduce((sum, value) => sum + value * value, 0) /
  frequencyData.length)\<close>\<close>

definition volume :: "byte list \<Rightarrow> number" where
  "volume frequencyData =
     Math_sqrt (quot
       (foldl (\<lambda>sum v. add sum (mul (byteNum v) (byteNum v))) (Num 0) frequencyData)
       (Num (real (length frequencyData))))"

definition getColorFromVolume :: "number \<Rightarrow> color" where
  "getColorFromVolume vol = (let hue = quot vol (Num 255) in HSL hue (Num 1) (Num (1 / 2)))"

text \<open>The whole tick on the shape, once both arrays of the frame are filled.\<close>

definition updateShape :: "byte list \<Rightarrow> byte list \<Rightarrow> mesh \<Rightarrow> mesh" where
  "updateShape frequencyData timeDomainData sh =
     (let sh1 = sh\<lparr>scale := add (Num 1) (mul (averageFrequency frequencyData) radiusScaleFactor)\<rparr>;
          sh2 = sh1\<lparr>geometry := deform timeDomainData (geometry sh1)\<rparr>;
          volColor = getColorFromVolume (volume frequencyData)
      in sh2\<lparr>material_color := volColor\<rparr>)"

section \<open>The analyser and the frame of a tick\<close>

record analyser =
  fftSize :: nat

text \<open>Modelled from the spec: \<open>analyser.frequencyBinCount\<close> is an attribute of the
  browser's analyser node, not code of main.js; the spec gives the bin count as half the
  configured FFT size.\<close>

definition frequencyBinCount :: "analyser \<Rightarrow> nat" where
  "frequencyBinCount an = fftSize an div 2"

text \<open>What the analyser node holds at the moment of a tick: its byte frequency data and
  its byte time-domain data. The environment supplies it.\<close>

record sample =
  byteFrequency :: "byte list"
  byteTimeDomain :: "byte list"

text \<open>Modelled from the spec: \<open>getByteFrequencyData(a)\<close> and
  \<open>getByteTimeDomainData(a)\<close> are the browser's. They copy the node's data into the given
  array, which keeps its length: data beyond the end of the array is dropped, elements of
  the array beyond the data stay as they are.\<close>

definition getByteData :: "byte list \<Rightarrow> byte list \<Rightarrow> byte list" where
  "getByteData src a = take (length a) src @ drop (length src) a"

text \<open>Lines 101 to 105.\<close>

definition frequencyData :: "analyser \<Rightarrow> sample \<Rightarrow> byte list" where
  "frequencyData an s = getByteData (byteFrequency s) (newUint8Array (frequencyBinCount an))"

definition timeDomainData :: "analyser \<Rightarrow> sample \<Rightarrow> byte list" where
  "timeDomainData an s = getByteData (byteTimeDomain s) (newUint8Array (frequencyBinCount an))"

section \<open>The page: module state and event handlers\<close>

text \<open>
  The module variables \<open>audioCtx\<close>, \<open>analyser\<close> and \<open>shape\<close>, the file input, and what
  the handlers do to the outside: notices shown with \<open>alert\<close>, lines written with
  \<open>console.error\<close>, exceptions nobody catches, file reads and decodes in flight, buffer
  sources started, animation frames requested and not yet run, and calls of
  \<open>renderer.render\<close>.
\<close>

record world =
  audioCtx :: bool
  analyser :: "analyser option"
  shape :: "mesh option"
  sceneMeshes :: nat
  files :: "byte list option"
  formShown :: bool
  alerts :: "string list"
  consoleErrors :: "string list"
  uncaught :: "string list"
  reading :: nat
  decoding :: nat
  sourcesStarted :: nat
  frameRequests :: nat
  renders :: nat

definition initialWorld :: world where
  "initialWorld =
     \<lparr>audioCtx = False, analyser = None, shape = None, sceneMeshes = 0, files = None,
      formShown = True, alerts = [], consoleErrors = [], uncaught = [], reading = 0,
      decoding = 0, sourcesStarted = 0, frameRequests = 0, renders = 0\<rparr>"

text \<open>The scheduler of the spec ticks while an animation frame is requested.\<close>

datatype scheduler = Idle | Running

definition schedulerState :: "world \<Rightarrow> scheduler" where
  "schedulerState w = (if frameRequests w = 0 then Idle else Running)"

text \<open>\<open>createSphere\<close>: a new mesh over a new geometry. The positions that
  \<open>THREE.SphereGeometry(1, 64, 64)\<close> generates are a parameter; the vertex count of a
  position attribute is the length of its array over the item size 3. The three lights
  that the function adds to the scene play no part in what follows and are left out.\<close>

definition createSphere :: "number list \<Rightarrow> mesh" where
  "createSphere sphere =
     \<lparr>geometry = \<lparr>array = sphere, count = length sphere div 3, originalPositions = None,
                  needsUpdate = False\<rparr>,
      scale = Num 1, material_color = Hex 0xff69b4\<rparr>"

text \<open>\<open>readFile\<close>: starts reading the chosen file; the outcome arrives later as an event.\<close>

definition readFile :: "world \<Rightarrow> world" where
  "readFile w = w\<lparr>reading := reading w + 1\<rparr>"

text \<open>\<open>animate\<close>: requests the next frame first, then samples, updates the shape and
  renders. With \<open>analyser\<close> or \<open>shape\<close> undefined the property access throws.\<close>

definition animate :: "sample \<Rightarrow> world \<Rightarrow> world" where
  "animate s w =
     (let w1 = w\<lparr>frameRequests := frameRequests w + 1\<rparr> in
      case analyser w1 of
        None \<Rightarrow> w1\<lparr>uncaught := uncaught w1 @ [''TypeError'']\<rparr>
      | Some an \<Rightarrow>
          (case shape w1 of
             None \<Rightarrow> w1\<lparr>uncaught := uncaught w1 @ [''TypeError'']\<rparr>
           | Some sh \<Rightarrow>
               w1\<lparr>shape := Some (updateShape (frequencyData an s) (timeDomainData an s) sh),
                  renders := renders w1 + 1\<rparr>))"

text \<open>The click handler of the play button.\<close>

definition click :: "number list \<Rightarrow> sample \<Rightarrow> world \<Rightarrow> world" where
  "click sphere s w =
     (let w1 = (if \<not> audioCtx w
                then w\<lparr>audioCtx := True, analyser := Some \<lparr>fftSize = 8192\<rparr>\<rparr>
                else w)
      in case files w1 of
           None \<Rightarrow> w1\<lparr>alerts := alerts w1 @ [''Please upload an audio file first.'']\<rparr>
         | Some f \<Rightarrow>
             let w2 = w1\<lparr>formShown := False\<rparr>;
                 w3 = readFile w2;
                 w4 = w3\<lparr>shape := Some (createSphere sphere)\<rparr>;
                 w5 = w4\<lparr>sceneMeshes := sceneMeshes w4 + 1\<rparr>
             in animate s w5)"

text \<open>\<open>reader.onload\<close>: hands the bytes to \<open>audioCtx.decodeAudioData\<close>.\<close>

definition onload :: "world \<Rightarrow> world" where
  "onload w =
     (if audioCtx w then w\<lparr>decoding := decoding w + 1\<rparr>
      else w\<lparr>uncaught := uncaught w @ [''TypeError'']\<rparr>)"

text \<open>\<open>reader.onerror\<close>\<close>

definition onerror :: "world \<Rightarrow> world" where
  "onerror w = w\<lparr>consoleErrors := consoleErrors w @ [''Error reading file:'']\<rparr>"

text \<open>The \<open>then\<close> callback of the decode: creates the buffer source, connects it through
  the analyser and starts it. An exception in it reaches the \<open>catch\<close> callback.\<close>

definition decoded :: "world \<Rightarrow> world" where
  "decoded w =
     (case analyser w of
        Some an \<Rightarrow> w\<lparr>sourcesStarted := sourcesStarted w + 1\<rparr>
      | None \<Rightarrow> w\<lparr>consoleErrors := consoleErrors w @ [''Error decoding audio data:'']\<rparr>)"

text \<open>The \<open>catch\<close> callback of the decode.\<close>

definition decodeFailed :: "world \<Rightarrow> world" where
  "decodeFailed w = w\<lparr>consoleErrors := consoleErrors w @ [''Error decoding audio data:'']\<rparr>"

text \<open>The events of the page. A callback runs only if it was asked for: a file read or a
  decode in flight, an animation frame requested.\<close>

datatype event =
    ChooseFile "byte list option"
  | Click sample
  | ReaderLoad
  | ReaderError
  | DecodeResolved
  | DecodeRejected
  | AnimationFrame sample

fun handle :: "number list \<Rightarrow> event \<Rightarrow> world \<Rightarrow> world" where
  "handle sphere (ChooseFile f) w = w\<lparr>files := f\<rparr>"
| "handle sphere (Click s) w = click sphere s w"
| "handle sphere ReaderLoad w =
     (if reading w = 0 then w else onload (w\<lparr>reading := reading w - 1\<rparr>))"
| "handle sphere ReaderError w =
     (if reading w = 0 then w else onerror (w\<lparr>reading := reading w - 1\<rparr>))"
| "handle sphere DecodeResolved w =
     (if decoding w = 0 then w else decoded (w\<lparr>decoding := decoding w - 1\<rparr>))"
| "handle sphere DecodeRejected w =
     (if decoding w = 0 then w else decodeFailed (w\<lparr>decoding := decoding w - 1\<rparr>))"
| "handle sphere (AnimationFrame s) w =
     (if frameRequests w = 0 then w else animate s (w\<lparr>frameRequests := frameRequests w - 1\<rparr>))"

fun run :: "number list \<Rightarrow> event list \<Rightarrow> world \<Rightarrow> world" where
  "run sphere [] w = w"
| "run sphere (e # es) w = run sphere es (handle sphere e w)"

section \<open>Notions of the specification\<close>

text \<open>A zero-signal frame of the spec: a non-empty array of time samples that are all
  128.\<close>

definition zeroSignal :: "byte list \<Rightarrow> bool" where
  "zeroSignal td \<longleftrightarrow> td \<noteq> [] \<and> list_all (\<lambda>v. v = 128) td"

text \<open>The magnitudes of the bins of a frame, and the two aggregates the spec names: the
  arithmetic mean and the root mean square. They are written from the spec's words, to be
  compared with what \<open>averageFrequency\<close> and \<open>volume\<close> compute.\<close>

definition magnitudes :: "byte list \<Rightarrow> real list" where
  "magnitudes bins = map (\<lambda>v. real (unat v)) bins"

definition mean :: "real list \<Rightarrow> real" where
  "mean xs = sum_list xs / real (length xs)"

definition rootMeanSquare :: "real list \<Rightarrow> real" where
  "rootMeanSquare xs = sqrt (sum_list (map (\<lambda>x. x * x) xs) / real (length xs))"

section \<open>Concrete inputs\<close>

text \<open>A geometry of two vertices before its first tick, and a mesh over it.\<close>

definition twoVertices :: geometry where
  "twoVertices =
     \<lparr>array = [Num 1, Num 0, Num 0, Num 0, Num (-2), Num 0], count = 2,
      originalPositions = None, needsUpdate = False\<rparr>"

definition restingMesh :: mesh where
  "restingMesh = \<lparr>geometry = twoVertices, scale = Num 1, material_color = Hex 0xff69b4\<rparr>"

text \<open>An analyser that holds no data, a run of the page in which the chosen file cannot
  be decoded, and the state of that run while the decode is in flight.\<close>

definition silence :: sample where
  "silence = \<lparr>byteFrequency = [], byteTimeDomain = []\<rparr>"

definition undecodableTrace :: "event list" where
  "undecodableTrace = [ChooseFile (Some [0, 1, 2]), Click silence, ReaderLoad, DecodeRejected]"

definition awaitingDecode :: world where
  "awaitingDecode = run [] [ChooseFile (Some [0, 1, 2]), Click silence, ReaderLoad] initialWorld"

section \<open>IEEE 754 arithmetic\<close>

text \<open>
  The definitions above compute over the reals, which is how the spec reads its formulas.
  main.js computes every operation in IEEE 754 double precision, rounded to nearest with
  ties to even, and stores each component of a position in a \<open>Float32Array\<close>, which
  rounds it once more to single precision. This section gives the rounding and the
  expressions of the tick with the rounding in them. Overflow to the infinities is left
  out: the values of a tick stay far below the largest double.
\<close>

text \<open>The position of the leading bit of a positive natural number.\<close>

fun ilog2 :: "nat \<Rightarrow> nat" where
  "ilog2 n = (if n < 2 then 0 else Suc (ilog2 (n div 2)))"

declare ilog2.simps [simp del]

text \<open>The binary exponent of a positive real x: the e with \<open>2 ^ e \<le> x < 2 ^ (e + 1)\<close>.\<close>

definition exponent :: "real \<Rightarrow> int" where
  "exponent x =
     (if 1 \<le> x then int (ilog2 (nat \<lfloor>x\<rfloor>))
      else - int (let n = nat \<lceil>1 / x\<rceil> in if n \<le> 1 then 0 else Suc (ilog2 (n - 1))))"

definition pow2 :: "int \<Rightarrow> real" where
  "pow2 e = (if 0 \<le> e then 2 ^ nat e else 1 / 2 ^ nat (- e))"

text \<open>The nearest integer, a tie going to the even one.\<close>

definition roundEven :: "real \<Rightarrow> int" where
  "roundEven x =
     (let f = \<lfloor>x\<rfloor>; d = x - real_of_int f
      in if d < 1 / 2 then f else if 1 / 2 < d then f + 1 else if even f then f else f + 1)"

text \<open>Rounding to a binary format with p significant bits whose smallest spacing is
  \<open>2 ^ emin\<close>: the spacing at x is \<open>2 ^ e\<close> with e the exponent of x less \<open>p - 1\<close>, and x
  goes to the nearest multiple of it.\<close>

definition roundTo :: "nat \<Rightarrow> int \<Rightarrow> real \<Rightarrow> real" where
  "roundTo p emin x =
     (if x = 0 then 0
      else let e = max (exponent \<bar>x\<bar> - (int p - 1)) emin
           in real_of_int (roundEven (x / pow2 e)) * pow2 e)"

text \<open>Double precision, the format of every JavaScript number, and single precision,
  the format of an element of a \<open>Float32Array\<close> (\<open>Math.fround\<close>).\<close>

definition double :: "real \<Rightarrow> real" where
  "double = roundTo 53 (- 1074)"

definition fround :: "real \<Rightarrow> real" where
  "fround = roundTo 24 (- 149)"

text \<open>The result of an arithmetic operation of main.js is the exact result rounded to
  double; a store into the position array rounds to single.\<close>

fun fl :: "number \<Rightarrow> number" where
  "fl (Num a) = Num (double a)"
| "fl NaN = NaN"

fun f32 :: "number \<Rightarrow> number" where
  "f32 (Num a) = Num (fround a)"
| "f32 NaN = NaN"

text \<open>Line 111, rounded: each addition of the \<open>reduce\<close> and the division.\<close>

definition averageFrequency_fl :: "byte list \<Rightarrow> number" where
  "averageFrequency_fl bins =
     fl (quot (foldl (\<lambda>a b. fl (add a (byteNum b))) (Num 0) bins)
              (Num (real (length bins))))"

text \<open>Line 125, rounded.\<close>

definition timeDomainValue_fl :: "byte list \<Rightarrow> nat \<Rightarrow> number" where
  "timeDomainValue_fl td i =
     fl (sub (fl (quot (readByte td (wrapIndex td i)) (Num 128))) (Num 1))"

text \<open>\<open>1 + timeDomainValue * waveformScaleFactor\<close>, rounded; the literal 0.035 is itself
  the double nearest to it.\<close>

definition waveFactor_fl :: "byte list \<Rightarrow> nat \<Rightarrow> number" where
  "waveFactor_fl td i =
     fl (add (Num 1) (fl (mul (timeDomainValue_fl td i) (fl waveformScaleFactor))))"

text \<open>The loop of lines 123 to 131 with the product rounded to double and the store
  rounded to single.\<close>

function deformLoop_fl ::
  "nat \<Rightarrow> nat \<Rightarrow> number list \<Rightarrow> byte list \<Rightarrow> number list \<Rightarrow> number list" where
  "deformLoop_fl i n orig td positions =
     (if i < n then
        let index = i * 3;
            f = waveFactor_fl td i;
            p0 = positions[index := f32 (fl (mul (readFloat orig index) f))];
            p1 = p0[index + 1 := f32 (fl (mul (readFloat orig (index + 1)) f))];
            p2 = p1[index + 2 := f32 (fl (mul (readFloat orig (index + 2)) f))]
        in deformLoop_fl (i + 1) n orig td p2
      else positions)"
  by pat_completeness auto
termination
  by (relation "measure (\<lambda>(i, n, orig, td, positions). n - i)") auto

declare deformLoop_fl.simps [simp del]

definition deform_fl :: "byte list \<Rightarrow> geometry \<Rightarrow> geometry" where
  "deform_fl td g =
     (let orig = restPose g;
          g1 = (case originalPositions g of
                  None \<Rightarrow> g\<lparr>originalPositions := Some orig\<rparr>
                | Some r \<Rightarrow> g)
      in g1\<lparr>array := deformLoop_fl 0 (count g1) orig td (array g1),
            needsUpdate := True\<rparr>)"

text \<open>Lines 134 to 136 and 144 to 147, rounded; \<open>Math.sqrt\<close> is correctly rounded.\<close>

definition volume_fl :: "byte list \<Rightarrow> number" where
  "volume_fl bins =
     fl (Math_sqrt (fl (quot
       (foldl (\<lambda>sum v. fl (add sum (fl (mul (byteNum v) (byteNum v))))) (Num 0) bins)
       (Num (real (length bins))))))"

definition getColorFromVolume_fl :: "number \<Rightarrow> color" where
  "getColorFromVolume_fl vol =
     (let hue = fl (quot vol (Num 255)) in HSL hue (Num 1) (Num (1 / 2)))"

text \<open>The whole tick on the shape, rounded.\<close>

definition updateShape_fl :: "byte list \<Rightarrow> byte list \<Rightarrow> mesh \<Rightarrow> mesh" where
  "updateShape_fl bins td sh =
     (let sh1 = sh\<lparr>scale := fl (add (Num 1)
                   (fl (mul (averageFrequency_fl bins) (fl radiusScaleFactor))))\<rparr>;
          sh2 = sh1\<lparr>geometry := deform_fl td (geometry sh1)\<rparr>;
          volColor = getColorFromVolume_fl (volume_fl bins)
      in sh2\<lparr>material_color := volColor\<rparr>)"

text \<open>A geometry of three vertices, for a frame shorter than the vertex count, and one
  of a single vertex whose components are 1, 3 and 0.\<close>

definition threeVertices :: geometry where
  "threeVertices =
     \<lparr>array = [Num 1, Num 0, Num 0, Num 0, Num (-2), Num 0, Num 0, Num 0, Num 4], count = 3,
      originalPositions = None, needsUpdate = False\<rparr>"

definition skewVertex :: geometry where
  "skewVertex =
     \<lparr>array = [Num 1, Num 3, Num 0], count = 1, originalPositions = None, needsUpdate = False\<rparr>"

section \<open>The loop over the vertices\<close>

lemma length_deformLoop: "length (deformLoop i n orig td ps) = length ps"
proof (induction i n orig td ps rule: deformLoop.induct)
  case (1 i n orig td ps)
  then show ?case by (subst deformLoop.simps) (simp add: Let_def)
qed

lemma deformLoop_nth:
  "j < length ps \<Longrightarrow>
   deformLoop i n orig td ps ! j =
     (if 3 * i \<le> j \<and> j < 3 * n then mul (readFloat orig j) (waveFactor td (j div 3)) else ps ! j)"
proof (induction i n orig td ps rule: deformLoop.induct)
  case (1 i n orig td ps)
  show ?case
  proof (cases "i < n")
    case False
    then show ?thesis by (subst deformLoop.simps) auto
  next
    case True
    define f where "f = waveFactor td i"
    define p2 where "p2 = ps[i * 3 := mul (readFloat orig (i * 3)) f,
       i * 3 + 1 := mul (readFloat orig (i * 3 + 1)) f,
       i * 3 + 2 := mul (readFloat orig (i * 3 + 2)) f]"
    have len: "j < length p2" using "1.prems" by (simp add: p2_def)
    have step: "deformLoop i n orig td ps = deformLoop (i + 1) n orig td p2"
      using True by (subst deformLoop.simps) (simp add: Let_def p2_def f_def)
    have IH: "deformLoop (i + 1) n orig td p2 ! j =
       (if 3 * (i + 1) \<le> j \<and> j < 3 * n then mul (readFloat orig j) (waveFactor td (j div 3)) else p2 ! j)"
      using "1.IH"[OF True refl refl refl refl refl] len
      by (simp add: p2_def f_def)
    show ?thesis
    proof (cases "3 * (i + 1) \<le> j")
      case True
      then have "p2 ! j = ps ! j" by (simp add: p2_def)
      with True IH step show ?thesis by auto
    next
      case False
      show ?thesis
      proof (cases "3 * i \<le> j")
        case lo: True
        then have jd: "j div 3 = i" using False by simp
        from lo False have "j = i * 3 \<or> j = i * 3 + 1 \<or> j = i * 3 + 2" by arith
        then have "p2 ! j = mul (readFloat orig j) f"
          using "1.prems" by (auto simp: p2_def nth_list_update)
        moreover have "j < 3 * n" using False True by simp
        ultimately show ?thesis using IH step False lo jd by (simp add: f_def)
      next
        case hi: False
        then have "p2 ! j = ps ! j" by (simp add: p2_def)
        then show ?thesis using IH step False hi by simp
      qed
    qed
  qed
qed

section \<open>Facts about one call of the deformation\<close>

lemma mul_one: "mul x (Num 1) = x"
  by (cases x) simp_all

lemma unat_byte_le: "unat (v :: byte) \<le> 255"
  using unsigned_less [of v, where ?'a = nat] by simp

lemma waveFactor_Num:
  "td \<noteq> [] \<Longrightarrow>
   waveFactor td i = Num (1 + (real (unat (td ! (i mod length td))) / 128 - 1) * (35 / 1000))"
  by (simp add: waveFactor_def timeDomainValue_def readByte_def wrapIndex_def byteNum_def
      waveformScaleFactor_def)

lemma waveFactor_128:
  "td \<noteq> [] \<Longrightarrow> td ! (i mod length td) = 128 \<Longrightarrow> waveFactor td i = Num 1"
  by (simp add: waveFactor_Num)

lemma count_deform: "count (deform td g) = count g"
  by (simp add: deform_def Let_def split: option.splits)

lemma length_array_deform: "length (array (deform td g)) = length (array g)"
  by (simp add: deform_def Let_def length_deformLoop split: option.splits)

lemma originalPositions_deform: "originalPositions (deform td g) = Some (restPose g)"
  by (simp add: deform_def restPose_def Let_def split: option.splits)

lemma restPose_deform: "restPose (deform td g) = restPose g"
  by (simp add: restPose_def originalPositions_deform)

lemma length_restPose: "wf_geometry g \<Longrightarrow> length (restPose g) = 3 * count g"
  by (auto simp: wf_geometry_def restPose_def split: option.splits)

lemma wf_deform: "wf_geometry g \<Longrightarrow> wf_geometry (deform td g)"
  using length_restPose [of g]
  by (simp add: wf_geometry_def originalPositions_deform length_array_deform count_deform)

lemma array_deform_nth:
  assumes "wf_geometry g" and "j < 3 * count g"
  shows "array (deform td g) ! j = mul (restPose g ! j) (waveFactor td (j div 3))"
proof -
  have "j < length (array g)" using assms by (simp add: wf_geometry_def)
  moreover have "j < length (restPose g)" using assms by (simp add: length_restPose)
  ultimately show ?thesis
    using assms(2)
    by (simp add: deform_def Let_def deformLoop_nth readFloat_def split: option.splits)
qed

lemma array_deform_eqI:
  assumes "wf_geometry g" and "wf_geometry h" and "count h = count g"
    and "restPose h = restPose g"
    and "\<And>i. i < count g \<Longrightarrow> waveFactor td' i = waveFactor td i"
  shows "array (deform td' h) = array (deform td g)"
proof (rule nth_equalityI)
  show "length (array (deform td' h)) = length (array (deform td g))"
    using assms by (simp add: length_array_deform wf_geometry_def)
next
  fix j assume "j < length (array (deform td' h))"
  then have j: "j < 3 * count g"
    using assms by (simp add: length_array_deform wf_geometry_def)
  then have "j div 3 < count g" by simp
  then show "array (deform td' h) ! j = array (deform td g) ! j"
    using assms j by (simp add: array_deform_nth)
qed

lemma fold_deform_fresh:
  assumes "wf_geometry g"
  shows "wf_geometry (fold deform tds g) \<and> count (fold deform tds g) = count g \<and>
         restPose (fold deform tds g) = restPose g"
  using assms by (induction tds arbitrary: g) (simp_all add: wf_deform count_deform restPose_deform)

section \<open>Zero signal and the rest pose\<close>

lemma zeroSignal_waveFactor: "zeroSignal td \<Longrightarrow> waveFactor td i = Num 1"
  by (rule waveFactor_128) (auto simp: zeroSignal_def list_all_iff)

lemma array_deform_zeroSignal:
  assumes "wf_geometry g" and "zeroSignal td"
  shows "array (deform td g) = restPose g"
proof (rule nth_equalityI)
  show "length (array (deform td g)) = length (restPose g)"
    using assms(1) by (simp add: length_array_deform length_restPose wf_geometry_def)
next
  fix j assume "j < length (array (deform td g))"
  then have "j < 3 * count g"
    using assms(1) by (simp add: length_array_deform wf_geometry_def)
  then show "array (deform td g) ! j = restPose g ! j"
    using assms by (simp add: array_deform_nth zeroSignal_waveFactor mul_one)
qed

lemma array_fold_deform_zeroSignal:
  "wf_geometry g \<Longrightarrow> list_all zeroSignal tds \<Longrightarrow> tds \<noteq> [] \<Longrightarrow>
   array (fold deform tds g) = restPose g"
proof (induction tds arbitrary: g)
  case Nil
  then show ?case by simp
next
  case (Cons td tds)
  show ?case
  proof (cases "tds = []")
    case True
    with Cons.prems show ?thesis by (simp add: array_deform_zeroSignal)
  next
    case False
    have "array (fold deform tds (deform td g)) = restPose (deform td g)"
      using Cons.prems False by (intro Cons.IH) (simp_all add: wf_deform)
    then show ?thesis by (simp add: restPose_deform)
  qed
qed

text \<open>
  Claim C2. On a well-formed geometry, a tick whose time samples are all 128 leaves the
  live array equal to the rest pose, and so does any further number of such ticks; for a
  geometry that has not been deformed yet this is the array it started with.
\<close>

theorem zero_signal_keeps_rest_pose:
  assumes "wf_geometry g" and "zeroSignal td" and "list_all zeroSignal tds"
  shows "array (deform td g) = restPose g \<and>
         array (fold deform (td # tds) g) = restPose g \<and>
         (originalPositions g = None \<longrightarrow> array (fold deform (td # tds) g) = array g)"
proof -
  have "array (fold deform (td # tds) g) = restPose g"
    using assms by (intro array_fold_deform_zeroSignal) simp_all
  moreover have "originalPositions g = None \<longrightarrow> restPose g = array g"
    by (simp add: restPose_def)
  ultimately show ?thesis
    using assms by (simp add: array_deform_zeroSignal)
qed

theorem zero_signal_keeps_rest_pose_witness:
  "wf_geometry twoVertices \<and> zeroSignal [128, 128, 128] \<and> list_all zeroSignal [[128], [128, 128]] \<and>
   array (fold deform [[128, 128, 128], [128], [128, 128]] twoVertices) =
     [Num 1, Num 0, Num 0, Num 0, Num (-2), Num 0]"
proof -
  have w: "wf_geometry twoVertices" by (simp add: wf_geometry_def twoVertices_def)
  have z: "zeroSignal [128, 128, 128]" by (simp add: zeroSignal_def)
  have zs: "list_all zeroSignal [[128], [128, 128]]" by (simp add: zeroSignal_def)
  show ?thesis
    using zero_signal_keeps_rest_pose [OF w z zs] w z zs by (simp add: twoVertices_def restPose_def)
qed

lemma originalPositions_fold_deform:
  "tds \<noteq> [] \<Longrightarrow> originalPositions (fold deform tds g) = Some (restPose g)"
proof (induction tds arbitrary: g)
  case Nil
  then show ?case by simp
next
  case (Cons td tds)
  then show ?case
    by (cases "tds = []") (simp_all add: originalPositions_deform restPose_deform)
qed

lemma array_fold_deform_nth:
  "wf_geometry g \<Longrightarrow> tds \<noteq> [] \<Longrightarrow> j < 3 * count g \<Longrightarrow>
   array (fold deform tds g) ! j = mul (restPose g ! j) (waveFactor (last tds) (j div 3))"
proof (induction tds arbitrary: g)
  case Nil
  then show ?case by simp
next
  case (Cons td tds)
  show ?case
  proof (cases "tds = []")
    case True
    with Cons.prems show ?thesis by (simp add: array_deform_nth)
  next
    case False
    have "array (fold deform tds (deform td g)) ! j =
          mul (restPose (deform td g) ! j) (waveFactor (last tds) (j div 3))"
      using Cons.prems False by (intro Cons.IH) (simp_all add: wf_deform count_deform)
    then show ?thesis using False by (simp add: restPose_deform)
  qed
qed

text \<open>
  Claim C3. The first tick on a geometry caches the live array as it is before the loop
  writes it; after that tick and after every later one the cache still holds that array,
  and the live array is the cached one under the factors of the latest frame.
\<close>

theorem rest_pose_captured_once:
  assumes "wf_geometry g" and "originalPositions g = None"
  shows "originalPositions (deform td g) = Some (array g) \<and>
         originalPositions (fold deform (td # tds) g) = Some (array g) \<and>
         (\<forall>j < 3 * count g.
            array (fold deform (td # tds) g) ! j =
              mul (array g ! j) (waveFactor (last (td # tds)) (j div 3)))"
proof -
  have r: "restPose g = array g" using assms(2) by (simp add: restPose_def)
  have "originalPositions (fold deform (td # tds) g) = Some (restPose g)"
    by (rule originalPositions_fold_deform) simp
  moreover have "\<forall>j < 3 * count g.
            array (fold deform (td # tds) g) ! j =
              mul (restPose g ! j) (waveFactor (last (td # tds)) (j div 3))"
    using assms(1) by (intro allI impI array_fold_deform_nth) simp_all
  ultimately show ?thesis using r by (simp add: originalPositions_deform)
qed

theorem rest_pose_captured_once_witness:
  "wf_geometry twoVertices \<and> originalPositions twoVertices = None \<and>
   originalPositions (fold deform [[255], [0, 7], [64]] twoVertices) =
     Some [Num 1, Num 0, Num 0, Num 0, Num (-2), Num 0]"
proof -
  have w: "wf_geometry twoVertices" by (simp add: wf_geometry_def twoVertices_def)
  have n: "originalPositions twoVertices = None" by (simp add: twoVertices_def)
  have "originalPositions (fold deform ([255] # [[0, 7], [64]]) twoVertices) =
          Some (array twoVertices)"
    using rest_pose_captured_once [OF w n, of "[255]" "[[0, 7], [64]]"]
    by (elim conjE)
  then show ?thesis using w n by (simp add: twoVertices_def)
qed

section \<open>The factor of a vertex\<close>




section \<open>Scale and colour\<close>

lemma foldl_add_byteNum:
  "foldl (\<lambda>a b. add a (byteNum b)) (Num s) xs = Num (s + sum_list (magnitudes xs))"
  by (induction xs arbitrary: s) (simp_all add: magnitudes_def byteNum_def add.assoc)

lemma foldl_add_square:
  "foldl (\<lambda>sum v. add sum (mul (byteNum v) (byteNum v))) (Num s) xs =
   Num (s + sum_list (map (\<lambda>x. x * x) (magnitudes xs)))"
  by (induction xs arbitrary: s) (simp_all add: magnitudes_def byteNum_def add.assoc o_def)

lemma averageFrequency_mean:
  "fd \<noteq> [] \<Longrightarrow> averageFrequency fd = Num (mean (magnitudes fd))"
  by (simp add: averageFrequency_def foldl_add_byteNum mean_def magnitudes_def)

lemma sum_list_squares_nonneg: "0 \<le> sum_list (map (\<lambda>x. x * x) (xs :: real list))"
  by (rule sum_list_nonneg) auto

lemma volume_rootMeanSquare:
  "fd \<noteq> [] \<Longrightarrow> volume fd = Num (rootMeanSquare (magnitudes fd))"
  using sum_list_squares_nonneg [of "magnitudes fd"]
  by (simp add: volume_def foldl_add_square rootMeanSquare_def magnitudes_def not_less
      divide_nonneg_nonneg)

lemma magnitudes_constant:
  assumes "\<forall>v \<in> set fd. v = V"
  shows "magnitudes fd = replicate (length fd) (real (unat V))"
proof -
  have "replicate (length fd) V = fd"
    using assms by (intro replicate_length_same) simp
  then have "magnitudes fd = magnitudes (replicate (length fd) V)" by simp
  then show ?thesis by (simp add: magnitudes_def)
qed

lemma mean_constant:
  "fd \<noteq> [] \<Longrightarrow> \<forall>v \<in> set fd. v = V \<Longrightarrow> mean (magnitudes fd) = real (unat V)"
  by (simp add: magnitudes_constant mean_def sum_list_replicate)

lemma rootMeanSquare_constant:
  "fd \<noteq> [] \<Longrightarrow> \<forall>v \<in> set fd. v = V \<Longrightarrow> rootMeanSquare (magnitudes fd) = real (unat V)"
  using of_nat_0_le_iff [of "unat V", where ?'a = real]
  by (simp add: magnitudes_constant rootMeanSquare_def sum_list_replicate)

lemma scale_updateShape:
  "scale (updateShape fd td sh) = add (Num 1) (mul (averageFrequency fd) radiusScaleFactor)"
  by (simp add: updateShape_def Let_def)

lemma geometry_updateShape: "geometry (updateShape fd td sh) = deform td (geometry sh)"
  by (simp add: updateShape_def Let_def)

lemma material_color_updateShape:
  "material_color (updateShape fd td sh) = getColorFromVolume (volume fd)"
  by (simp add: updateShape_def Let_def)

text \<open>
  Claim C5. For a non-empty array of bins, \<open>volume\<close> is their root mean square and the
  colour of the material is set from hue = volume / 255, saturation 1 and lightness 0.5;
  it depends on the bins only, not on the time samples or on the mesh before the tick;
  bins that are all 0 give hue 0, bins that are all 255 give hue 1.
\<close>

theorem color_from_loudness:
  assumes "fd \<noteq> []"
  shows "volume fd = Num (rootMeanSquare (magnitudes fd)) \<and>
         material_color (updateShape fd td sh) =
           HSL (Num (rootMeanSquare (magnitudes fd) / 255)) (Num 1) (Num (1 / 2)) \<and>
         material_color (updateShape fd td' sh') = material_color (updateShape fd td sh) \<and>
         ((\<forall>v \<in> set fd. v = 0) \<longrightarrow>
            material_color (updateShape fd td sh) = HSL (Num 0) (Num 1) (Num (1 / 2))) \<and>
         ((\<forall>v \<in> set fd. v = 255) \<longrightarrow>
            material_color (updateShape fd td sh) = HSL (Num 1) (Num 1) (Num (1 / 2)))"
proof -
  have vol: "volume fd = Num (rootMeanSquare (magnitudes fd))"
    using assms by (rule volume_rootMeanSquare)
  have col: "material_color (updateShape fd td sh) =
           HSL (Num (rootMeanSquare (magnitudes fd) / 255)) (Num 1) (Num (1 / 2))"
    by (simp add: material_color_updateShape vol getColorFromVolume_def)
  have pure: "material_color (updateShape fd td' sh') = material_color (updateShape fd td sh)"
    by (simp add: material_color_updateShape)
  have zero: "(\<forall>v \<in> set fd. v = 0) \<longrightarrow>
            material_color (updateShape fd td sh) = HSL (Num 0) (Num 1) (Num (1 / 2))"
    using assms rootMeanSquare_constant [of fd 0] by (simp add: col)
  have full: "(\<forall>v \<in> set fd. v = 255) \<longrightarrow>
            material_color (updateShape fd td sh) = HSL (Num 1) (Num 1) (Num (1 / 2))"
    using assms rootMeanSquare_constant [of fd 255] by (simp add: col)
  show ?thesis
    by (intro conjI vol col pure zero full)
qed

theorem color_from_loudness_witness:
  "[255, 255] \<noteq> ([] :: byte list) \<and>
   material_color (updateShape [255, 255] [7] restingMesh) = HSL (Num 1) (Num 1) (Num (1 / 2))"
proof -
  have ne: "[255, 255] \<noteq> ([] :: byte list)" by simp
  have "(\<forall>v \<in> set [255, 255 :: byte]. v = 255) \<longrightarrow>
          material_color (updateShape [255, 255] [7] restingMesh) = HSL (Num 1) (Num 1) (Num (1 / 2))"
    using color_from_loudness [OF ne, where td = "[7]" and sh = restingMesh and td' = "[]" and sh' = restingMesh]
    by (elim conjE)
  then show ?thesis by simp
qed

section \<open>The page\<close>

lemma renders_animate:
  "analyser w \<noteq> None \<Longrightarrow> shape w \<noteq> None \<Longrightarrow> renders (animate s w) = renders w + 1"
  by (auto simp: animate_def Let_def)

lemma frameRequests_animate: "frameRequests (animate s w) = frameRequests w + 1"
  by (simp add: animate_def Let_def split: option.splits)

lemma decoding_animate: "decoding (animate s w) = decoding w"
  by (simp add: animate_def Let_def split: option.splits)

lemma reading_animate: "reading (animate s w) = reading w"
  by (simp add: animate_def Let_def split: option.splits)

lemma sourcesStarted_animate: "sourcesStarted (animate s w) = sourcesStarted w"
  by (simp add: animate_def Let_def split: option.splits)

lemma analyser_animate: "analyser (animate s w) = analyser w"
  by (simp add: animate_def Let_def split: option.splits)

lemma click_with_file:
  assumes "files w = Some f" and "audioCtx w \<longrightarrow> analyser w \<noteq> None"
  shows "renders (click sphere s w) = renders w + 1"
    and "frameRequests (click sphere s w) = frameRequests w + 1"
    and "decoding (click sphere s w) = decoding w"
    and "reading (click sphere s w) = reading w + 1"
  using assms
  by (simp_all add: click_def Let_def readFile_def renders_animate frameRequests_animate
      decoding_animate reading_animate)

lemma click_without_file:
  assumes "files w = None"
  shows "click sphere s w =
          w\<lparr>audioCtx := True,
            analyser := (if audioCtx w then analyser w else Some \<lparr>fftSize = 8192\<rparr>),
            alerts := alerts w @ [''Please upload an audio file first.'']\<rparr>"
  using assms by (simp add: click_def Let_def)

lemma sourcesStarted_handle:
  "DecodeResolved \<noteq> e \<Longrightarrow> sourcesStarted (handle sphere e w) = sourcesStarted w"
  by (cases e)
     (simp_all add: click_def Let_def readFile_def sourcesStarted_animate onload_def
       onerror_def decodeFailed_def split: option.splits)

lemma sourcesStarted_run:
  "DecodeResolved \<notin> set evs \<Longrightarrow> sourcesStarted (run sphere evs w) = sourcesStarted w"
  by (induction evs arbitrary: w) (simp_all add: sourcesStarted_handle)

lemma analyser_handle:
  "analyser w = None \<or> analyser w = Some \<lparr>fftSize = 8192\<rparr> \<Longrightarrow>
   analyser (handle sphere e w) = None \<or> analyser (handle sphere e w) = Some \<lparr>fftSize = 8192\<rparr>"
  by (cases e)
     (auto simp: click_def Let_def readFile_def analyser_animate onload_def
       onerror_def decodeFailed_def decoded_def split: option.splits)

lemma analyser_run:
  "analyser w = None \<or> analyser w = Some \<lparr>fftSize = 8192\<rparr> \<Longrightarrow>
   analyser (run sphere evs w) = None \<or> analyser (run sphere evs w) = Some \<lparr>fftSize = 8192\<rparr>"
proof (induction evs arbitrary: w)
  case Nil
  then show ?case by simp
next
  case (Cons e evs)
  from Cons.prems have "analyser (handle sphere e w) = None \<or>
      analyser (handle sphere e w) = Some \<lparr>fftSize = 8192\<rparr>"
    by (rule analyser_handle)
  then show ?case unfolding run.simps by (rule Cons.IH)
qed

lemma analyser_kept_handle:
  "analyser w = Some \<lparr>fftSize = 8192\<rparr> \<Longrightarrow> analyser (handle sphere e w) = Some \<lparr>fftSize = 8192\<rparr>"
  by (cases e)
     (auto simp: click_def Let_def readFile_def analyser_animate onload_def
       onerror_def decodeFailed_def decoded_def split: option.splits)

lemma analyser_kept_run:
  "analyser w = Some \<lparr>fftSize = 8192\<rparr> \<Longrightarrow> analyser (run sphere evs w) = Some \<lparr>fftSize = 8192\<rparr>"
  by (induction evs arbitrary: w) (simp_all add: analyser_kept_handle)

lemma run_append: "run sphere (evs @ evs') w = run sphere evs' (run sphere evs w)"
  by (induction evs arbitrary: w) simp_all

lemma length_getByteData: "length (getByteData src a) = length a"
  by (simp add: getByteData_def)

lemma length_frequencyData: "length (frequencyData an s) = frequencyBinCount an"
  by (simp add: frequencyData_def length_getByteData newUint8Array_def)

lemma length_timeDomainData: "length (timeDomainData an s) = frequencyBinCount an"
  by (simp add: timeDomainData_def length_getByteData newUint8Array_def)

text \<open>
  Claim C1, amended. While no decode succeeds no buffer source is started; the handler of
  a failed decode writes one line with \<open>console.error\<close> and changes nothing else, so it
  issues no new read and no new decode; and a click with a file chosen requests an
  animation frame and renders once by itself, before any decode has been issued, whatever
  the outcome of the decode will be.
\<close>

theorem decode_failure_only_logged:
  assumes "DecodeResolved \<notin> set evs"
  shows "sourcesStarted (run sphere evs w) = sourcesStarted w \<and>
         (0 < decoding w \<longrightarrow>
            handle sphere DecodeRejected w =
              w\<lparr>decoding := decoding w - 1,
                consoleErrors := consoleErrors w @ [''Error decoding audio data:'']\<rparr>) \<and>
         (files w \<noteq> None \<and> (audioCtx w \<longrightarrow> analyser w \<noteq> None) \<longrightarrow>
            schedulerState (handle sphere (Click s) w) = Running \<and>
            renders (handle sphere (Click s) w) = renders w + 1 \<and>
            frameRequests (handle sphere (Click s) w) = frameRequests w + 1 \<and>
            reading (handle sphere (Click s) w) = reading w + 1 \<and>
            decoding (handle sphere (Click s) w) = decoding w)"
proof -
  have quiet: "sourcesStarted (run sphere evs w) = sourcesStarted w"
    using assms by (rule sourcesStarted_run)
  have logged: "0 < decoding w \<longrightarrow>
            handle sphere DecodeRejected w =
              w\<lparr>decoding := decoding w - 1,
                consoleErrors := consoleErrors w @ [''Error decoding audio data:'']\<rparr>"
    by (simp add: decodeFailed_def)
  have started: "files w \<noteq> None \<and> (audioCtx w \<longrightarrow> analyser w \<noteq> None) \<longrightarrow>
            schedulerState (handle sphere (Click s) w) = Running \<and>
            renders (handle sphere (Click s) w) = renders w + 1 \<and>
            frameRequests (handle sphere (Click s) w) = frameRequests w + 1 \<and>
            reading (handle sphere (Click s) w) = reading w + 1 \<and>
            decoding (handle sphere (Click s) w) = decoding w"
  proof
    assume h: "files w \<noteq> None \<and> (audioCtx w \<longrightarrow> analyser w \<noteq> None)"
    then obtain f where f: "files w = Some f" by auto
    from h have a: "audioCtx w \<longrightarrow> analyser w \<noteq> None" by (rule conjunct2)
    show "schedulerState (handle sphere (Click s) w) = Running \<and>
            renders (handle sphere (Click s) w) = renders w + 1 \<and>
            frameRequests (handle sphere (Click s) w) = frameRequests w + 1 \<and>
            reading (handle sphere (Click s) w) = reading w + 1 \<and>
            decoding (handle sphere (Click s) w) = decoding w"
      by (simp add: schedulerState_def click_with_file [OF f a])
  qed
  show ?thesis by (intro conjI quiet logged started)
qed

text \<open>
  Claim C1 as stated: after a click with a file whose decode fails, the scheduler is
  running and one frame has been drawn, although the failure was logged and no source
  was started.
\<close>

theorem decode_failure_starts_anyway_counterexample:
  "consoleErrors (run [] undecodableTrace initialWorld) = [''Error decoding audio data:''] \<and>
   decoding (run [] undecodableTrace initialWorld) = 0 \<and>
   sourcesStarted (run [] undecodableTrace initialWorld) = 0 \<and>
   schedulerState (run [] undecodableTrace initialWorld) = Running \<and>
   renders (run [] undecodableTrace initialWorld) = 1"
  by (simp add: undecodableTrace_def initialWorld_def click_def Let_def readFile_def animate_def
      onload_def decodeFailed_def schedulerState_def)

text \<open>
  Claim C8. A click with no file chosen shows the notice with \<open>alert\<close> in the handler
  itself and leaves the scheduler, the number of draw calls, the file reads and decodes in
  flight and the shape as they were.
\<close>

theorem missing_input_alerts_and_stays_idle:
  assumes "files w = None"
  shows "alerts (handle sphere (Click s) w) = alerts w @ [''Please upload an audio file first.''] \<and>
         schedulerState (handle sphere (Click s) w) = schedulerState w \<and>
         frameRequests (handle sphere (Click s) w) = frameRequests w \<and>
         renders (handle sphere (Click s) w) = renders w \<and>
         reading (handle sphere (Click s) w) = reading w \<and>
         decoding (handle sphere (Click s) w) = decoding w \<and>
         shape (handle sphere (Click s) w) = shape w"
  by (simp add: click_without_file [OF assms] schedulerState_def)

theorem missing_input_alerts_and_stays_idle_witness:
  "files initialWorld = None \<and>
   alerts (handle [] (Click silence) initialWorld) = [''Please upload an audio file first.''] \<and>
   schedulerState (handle [] (Click silence) initialWorld) = Idle \<and>
   renders (handle [] (Click silence) initialWorld) = 0"
proof -
  have n: "files initialWorld = None" by (simp add: initialWorld_def)
  show ?thesis
    using missing_input_alerts_and_stays_idle [OF n, of "[]" silence] n
    by (simp add: initialWorld_def schedulerState_def)
qed

text \<open>
  Claim C9. The bin count is half the FFT size and both arrays of a tick have that length;
  in every state the page can reach the analyser, once created, has FFT size 8192, so the
  bin count is 4096, and no later event changes it.
\<close>

theorem bin_count_half_fft_size:
  "frequencyBinCount an = fftSize an div 2 \<and>
   length (frequencyData an s) = frequencyBinCount an \<and>
   length (timeDomainData an s) = frequencyBinCount an \<and>
   (analyser (run sphere evs initialWorld) = Some an \<longrightarrow>
      fftSize an = 8192 \<and> frequencyBinCount an = 4096 \<and>
      length (frequencyData an s) = 4096 \<and> length (timeDomainData an s) = 4096 \<and>
      analyser (run sphere (evs @ evs') initialWorld) = Some an)"
proof -
  have reach: "analyser (run sphere evs initialWorld) = Some an \<longrightarrow>
      fftSize an = 8192 \<and> frequencyBinCount an = 4096 \<and>
      length (frequencyData an s) = 4096 \<and> length (timeDomainData an s) = 4096 \<and>
      analyser (run sphere (evs @ evs') initialWorld) = Some an"
  proof
    assume a: "analyser (run sphere evs initialWorld) = Some an"
    have "analyser initialWorld = None \<or> analyser initialWorld = Some \<lparr>fftSize = 8192\<rparr>"
      by (simp add: initialWorld_def)
    then have "analyser (run sphere evs initialWorld) = None \<or>
               analyser (run sphere evs initialWorld) = Some \<lparr>fftSize = 8192\<rparr>"
      by (rule analyser_run)
    with a have an: "an = \<lparr>fftSize = 8192\<rparr>" by simp
    have "analyser (run sphere (evs @ evs') initialWorld) = Some an"
      using a unfolding run_append an by (rule analyser_kept_run)
    then show "fftSize an = 8192 \<and> frequencyBinCount an = 4096 \<and>
      length (frequencyData an s) = 4096 \<and> length (timeDomainData an s) = 4096 \<and>
      analyser (run sphere (evs @ evs') initialWorld) = Some an"
      by (simp add: length_frequencyData length_timeDomainData) (simp add: an frequencyBinCount_def)
  qed
  show ?thesis
    by (intro conjI frequencyBinCount_def length_frequencyData length_timeDomainData reach)
qed

theorem bin_count_half_fft_size_witness:
  "analyser (run [] [ChooseFile (Some [0, 1, 2]), Click silence] initialWorld) = Some \<lparr>fftSize = 8192\<rparr> \<and>
   length (frequencyData \<lparr>fftSize = 8192\<rparr> silence) = 4096"
proof -
  have a: "analyser (run [] [ChooseFile (Some [0, 1, 2]), Click silence] initialWorld) = Some \<lparr>fftSize = 8192\<rparr>"
    by (simp add: initialWorld_def click_def Let_def readFile_def analyser_animate)
  have "analyser (run [] [ChooseFile (Some [0, 1, 2]), Click silence] initialWorld) = Some \<lparr>fftSize = 8192\<rparr> \<longrightarrow>
      fftSize \<lparr>fftSize = 8192\<rparr> = 8192 \<and> frequencyBinCount \<lparr>fftSize = 8192\<rparr> = 4096 \<and>
      length (frequencyData \<lparr>fftSize = 8192\<rparr> silence) = 4096 \<and> length (timeDomainData \<lparr>fftSize = 8192\<rparr> silence) = 4096 \<and>
      analyser (run [] ([ChooseFile (Some [0, 1, 2]), Click silence] @ []) initialWorld) = Some \<lparr>fftSize = 8192\<rparr>"
    using bin_count_half_fft_size [where an = "\<lparr>fftSize = 8192\<rparr>" and s = silence and sphere = "[]"
        and evs = "[ChooseFile (Some [0, 1, 2]), Click silence]" and evs' = "[]"]
    by (elim conjE)
  with a show ?thesis by blast
qed

theorem decode_failure_only_logged_witness:
  "DecodeResolved \<notin> set [DecodeRejected] \<and> 0 < decoding awaitingDecode \<and>
   files awaitingDecode \<noteq> None \<and> analyser awaitingDecode = Some \<lparr>fftSize = 8192\<rparr> \<and>
   sourcesStarted (run [] [DecodeRejected] awaitingDecode) = 0 \<and>
   consoleErrors (handle [] DecodeRejected awaitingDecode) = [''Error decoding audio data:''] \<and>
   schedulerState (handle [] (Click silence) awaitingDecode) = Running"
proof -
  have e: "DecodeResolved \<notin> set [DecodeRejected]" by simp
  have d: "decoding awaitingDecode = 1" "files awaitingDecode \<noteq> None"
    "analyser awaitingDecode = Some \<lparr>fftSize = 8192\<rparr>"
    "sourcesStarted awaitingDecode = 0" "consoleErrors awaitingDecode = []"
    by (simp_all add: awaitingDecode_def initialWorld_def click_def Let_def readFile_def
        animate_def onload_def)
  show ?thesis
    using decode_failure_only_logged [OF e, of "[]" awaitingDecode silence] e d
    by simp
qed

section \<open>Rounding\<close>

lemma ilog2_bounds: "0 < n \<Longrightarrow> 2 ^ ilog2 n \<le> n \<and> n < 2 ^ Suc (ilog2 n)"
proof (induction n rule: ilog2.induct)
  case (1 n)
  show ?case
  proof (cases "n < 2")
    case True
    with "1.prems" show ?thesis by (subst (1 2) ilog2.simps) simp
  next
    case False
    then have "0 < n div 2" by simp
    with "1.IH" False have IH: "2 ^ ilog2 (n div 2) \<le> n div 2 \<and> n div 2 < 2 ^ Suc (ilog2 (n div 2))"
      by simp
    have e: "ilog2 n = Suc (ilog2 (n div 2))"
      using False by (subst ilog2.simps) simp
    from IH show ?thesis unfolding e by auto
  qed
qed

lemma ilog2_less:
  assumes "0 < n" and "n < 2 ^ p"
  shows "ilog2 n < p"
proof -
  from ilog2_bounds [OF assms(1)] have "2 ^ ilog2 n \<le> n" by (rule conjunct1)
  then have "(2::nat) ^ ilog2 n < 2 ^ p" using assms(2) by (rule le_less_trans)
  then show ?thesis by simp
qed

lemma roundEven_of_int: "roundEven (real_of_int k) = k"
  by (simp add: roundEven_def)

lemma roundTo_of_nat:
  assumes "n < 2 ^ p" and "emin \<le> 0"
  shows "roundTo p emin (real n) = real n"
proof (cases "n = 0")
  case True
  then show ?thesis by (simp add: roundTo_def)
next
  case False
  then have pos: "0 < n" by simp
  have ex: "exponent (real n) = int (ilog2 n)"
    using pos by (simp add: exponent_def)
  define e where "e = max (int (ilog2 n) - (int p - 1)) emin"
  have "int (ilog2 n) - (int p - 1) \<le> 0"
    using ilog2_less [OF pos assms(1)] by simp
  then have e0: "e \<le> 0" using assms(2) by (simp add: e_def)
  define m where "m = nat (- e)"
  have p2: "pow2 e = 1 / 2 ^ m"
    using e0 by (cases "e = 0") (simp_all add: pow2_def m_def)
  have "real n / pow2 e = real_of_int (int n * 2 ^ m)"
    by (simp add: p2)
  then have "roundEven (real n / pow2 e) = int n * 2 ^ m"
    by (simp only: roundEven_of_int)
  then have "real_of_int (roundEven (real n / pow2 e)) * pow2 e = real n"
    by (simp add: p2)
  then show ?thesis
    using False by (simp add: roundTo_def ex e_def Let_def)
qed

lemma double_of_nat: "n < 2 ^ 53 \<Longrightarrow> double (real n) = real n"
  by (simp add: double_def roundTo_of_nat)



section \<open>The rounded tick\<close>

lemma length_deformLoop_fl: "length (deformLoop_fl i n orig td ps) = length ps"
proof (induction i n orig td ps rule: deformLoop_fl.induct)
  case (1 i n orig td ps)
  then show ?case by (subst deformLoop_fl.simps) (simp add: Let_def)
qed

lemma deformLoop_fl_nth:
  "j < length ps \<Longrightarrow>
   deformLoop_fl i n orig td ps ! j =
     (if 3 * i \<le> j \<and> j < 3 * n
      then f32 (fl (mul (readFloat orig j) (waveFactor_fl td (j div 3)))) else ps ! j)"
proof (induction i n orig td ps rule: deformLoop_fl.induct)
  case (1 i n orig td ps)
  show ?case
  proof (cases "i < n")
    case False
    then show ?thesis by (subst deformLoop_fl.simps) auto
  next
    case True
    define f where "f = waveFactor_fl td i"
    define p2 where "p2 = ps[i * 3 := f32 (fl (mul (readFloat orig (i * 3)) f)),
       i * 3 + 1 := f32 (fl (mul (readFloat orig (i * 3 + 1)) f)),
       i * 3 + 2 := f32 (fl (mul (readFloat orig (i * 3 + 2)) f))]"
    have len: "j < length p2" using "1.prems" by (simp add: p2_def)
    have step: "deformLoop_fl i n orig td ps = deformLoop_fl (i + 1) n orig td p2"
      using True by (subst deformLoop_fl.simps) (simp add: Let_def p2_def f_def)
    have IH: "deformLoop_fl (i + 1) n orig td p2 ! j =
       (if 3 * (i + 1) \<le> j \<and> j < 3 * n
        then f32 (fl (mul (readFloat orig j) (waveFactor_fl td (j div 3)))) else p2 ! j)"
      using "1.IH"[OF True refl refl refl refl refl] len
      by (simp add: p2_def f_def)
    show ?thesis
    proof (cases "3 * (i + 1) \<le> j")
      case True
      then have "p2 ! j = ps ! j" by (simp add: p2_def)
      with True IH step show ?thesis by auto
    next
      case False
      show ?thesis
      proof (cases "3 * i \<le> j")
        case lo: True
        then have jd: "j div 3 = i" using False by simp
        from lo False have "j = i * 3 \<or> j = i * 3 + 1 \<or> j = i * 3 + 2" by arith
        then have "p2 ! j = f32 (fl (mul (readFloat orig j) f))"
          using "1.prems" by (auto simp: p2_def nth_list_update)
        moreover have "j < 3 * n" using False True by simp
        ultimately show ?thesis using IH step False lo jd by (simp add: f_def)
      next
        case hi: False
        then have "p2 ! j = ps ! j" by (simp add: p2_def)
        then show ?thesis using IH step False hi by simp
      qed
    qed
  qed
qed

lemma waveFactor_fl_Num:
  "td \<noteq> [] \<Longrightarrow>
   waveFactor_fl td i =
     Num (double (1 + double (double (double (real (unat (td ! (i mod length td))) / 128) - 1)
                               * double (35 / 1000))))"
  by (simp add: waveFactor_fl_def timeDomainValue_fl_def readByte_def wrapIndex_def byteNum_def
      waveformScaleFactor_def)

lemma count_deform_fl: "count (deform_fl td g) = count g"
  by (simp add: deform_fl_def Let_def split: option.splits)

lemma length_array_deform_fl: "length (array (deform_fl td g)) = length (array g)"
  by (simp add: deform_fl_def Let_def length_deformLoop_fl split: option.splits)

lemma originalPositions_deform_fl: "originalPositions (deform_fl td g) = Some (restPose g)"
  by (simp add: deform_fl_def restPose_def Let_def split: option.splits)

lemma restPose_deform_fl: "restPose (deform_fl td g) = restPose g"
  by (simp add: restPose_def originalPositions_deform_fl)

lemma wf_deform_fl: "wf_geometry g \<Longrightarrow> wf_geometry (deform_fl td g)"
  using length_restPose [of g]
  by (simp add: wf_geometry_def originalPositions_deform_fl length_array_deform_fl count_deform_fl)

lemma array_deform_fl_nth:
  assumes "wf_geometry g" and "j < 3 * count g"
  shows "array (deform_fl td g) ! j =
           f32 (fl (mul (restPose g ! j) (waveFactor_fl td (j div 3))))"
proof -
  have "j < length (array g)" using assms by (simp add: wf_geometry_def)
  moreover have "j < length (restPose g)" using assms by (simp add: length_restPose)
  ultimately show ?thesis
    using assms(2)
    by (simp add: deform_fl_def Let_def deformLoop_fl_nth readFloat_def split: option.splits)
qed

lemma array_deform_fl_again:
  assumes "wf_geometry g"
  shows "array (deform_fl td (deform_fl td' g)) = array (deform_fl td g)"
proof (rule nth_equalityI)
  show "length (array (deform_fl td (deform_fl td' g))) = length (array (deform_fl td g))"
    by (simp add: length_array_deform_fl)
next
  fix j assume "j < length (array (deform_fl td (deform_fl td' g)))"
  then have j: "j < 3 * count g"
    using assms by (simp add: length_array_deform_fl wf_geometry_def)
  have "array (deform_fl td (deform_fl td' g)) ! j =
          f32 (fl (mul (restPose (deform_fl td' g) ! j) (waveFactor_fl td (j div 3))))"
    using wf_deform_fl [OF assms] j by (intro array_deform_fl_nth) (simp_all add: count_deform_fl)
  then show "array (deform_fl td (deform_fl td' g)) ! j = array (deform_fl td g) ! j"
    using assms j by (simp add: array_deform_fl_nth restPose_deform_fl)
qed

text \<open>
  Claim C6, amended. After a tick with a non-empty array of time samples, each of the three
  components of vertex i is the component of the cached rest pose times one factor, the
  product rounded to double and, when it is stored, to single precision. The factor is the
  same for the three axes and is computed from the sample at \<open>i mod B\<close> and the
  constants 128, 1 and 0.035 alone: a tick on the geometry that an earlier frame has
  deformed gives the same live array.
\<close>

theorem live_is_rounded_multiple:
  assumes "wf_geometry g" and "td \<noteq> []" and "i < count g" and "a < 3"
  shows "originalPositions (deform_fl td g) = Some (restPose g) \<and>
         array (deform_fl td g) ! (3 * i + a) =
           f32 (fl (mul (restPose g ! (3 * i + a))
             (Num (double (1 + double (double (double (real (unat (td ! (i mod length td))) / 128) - 1)
                                       * double (35 / 1000))))))) \<and>
         array (deform_fl td (deform_fl td' g)) = array (deform_fl td g)"
proof -
  have j: "3 * i + a < 3 * count g" using assms(3,4) by simp
  have d: "(3 * i + a) div 3 = i" using assms(4) by simp
  have "array (deform_fl td g) ! (3 * i + a) =
          f32 (fl (mul (restPose g ! (3 * i + a)) (waveFactor_fl td i)))"
    using array_deform_fl_nth [OF assms(1) j] d by simp
  then have w: "array (deform_fl td g) ! (3 * i + a) =
           f32 (fl (mul (restPose g ! (3 * i + a))
             (Num (double (1 + double (double (double (real (unat (td ! (i mod length td))) / 128) - 1)
                                       * double (35 / 1000)))))))"
    by (simp only: waveFactor_fl_Num [OF assms(2)])
  show ?thesis
    by (intro conjI originalPositions_deform_fl w array_deform_fl_again assms(1))
qed

theorem live_is_rounded_multiple_witness:
  "wf_geometry twoVertices \<and> [255, 0, 64] \<noteq> ([] :: byte list) \<and> (1::nat) < count twoVertices \<and>
   (1::nat) < 3 \<and>
   array (deform_fl [255, 0, 64] twoVertices) ! (3 * 1 + 1) = Num (- 16190013 / 8388608) \<and>
   array (deform_fl [255, 0, 64] (deform_fl [7] twoVertices)) =
     array (deform_fl [255, 0, 64] twoVertices)"
proof -
  have w: "wf_geometry twoVertices" by (simp add: wf_geometry_def twoVertices_def)
  have ne: "[255, 0, 64] \<noteq> ([] :: byte list)" by simp
  have c: "1 < count twoVertices" by (simp add: twoVertices_def)
  have a: "(1::nat) < 3" by simp
  note t = live_is_rounded_multiple [OF w ne c a, of "[7]"]
  have v: "f32 (fl (mul (restPose twoVertices ! (3 * 1 + 1))
             (Num (double (1 + double (double (double (real (unat ([255, 0, 64 :: byte] ! (1 mod length [255, 0, 64 :: byte]))) / 128) - 1)
                                       * double (35 / 1000))))))) = Num (- 16190013 / 8388608)"
    by code_simp
  have "array (deform_fl [255, 0, 64] twoVertices) ! (3 * 1 + 1) = Num (- 16190013 / 8388608)"
    using t [THEN conjunct2, THEN conjunct1] v by (rule trans)
  moreover have "array (deform_fl [255, 0, 64] (deform_fl [7] twoVertices)) =
     array (deform_fl [255, 0, 64] twoVertices)"
    using t [THEN conjunct2, THEN conjunct2] .
  ultimately show ?thesis using w ne c a by (intro conjI)
qed

text \<open>
  Claim C6 as stated: the vertex (1, 3, 0) under the sample 0 becomes
  (16190013 / 2^24, 6071255 / 2^21, 0), and 3 times the first component is not the second.
  No scalar takes the rest position to the live position: the components are rounded one
  by one.
\<close>

theorem no_common_scalar_counterexample:
  "array (deform_fl [0] skewVertex) = [Num (16190013 / 16777216), Num (6071255 / 2097152), Num 0] \<and>
   3 * (16190013 / 16777216 :: real) \<noteq> 6071255 / 2097152"
proof
  show "array (deform_fl [0] skewVertex) = [Num (16190013 / 16777216), Num (6071255 / 2097152), Num 0]"
    by code_simp
  show "3 * (16190013 / 16777216 :: real) \<noteq> 6071255 / 2097152"
    by simp
qed



section \<open>The rounded scale\<close>

lemma unat_sum_le: "sum_list (map unat (xs :: byte list)) \<le> 255 * length xs"
proof (induction xs)
  case Nil
  then show ?case by simp
next
  case (Cons x xs)
  then show ?case using unat_byte_le [of x] by simp
qed

lemma sum_list_magnitudes: "sum_list (magnitudes xs) = real (sum_list (map unat xs))"
  by (induction xs) (simp_all add: magnitudes_def)

lemma foldl_add_fl:
  "n + sum_list (map unat xs) < 2 ^ 53 \<Longrightarrow>
   foldl (\<lambda>a b. fl (add a (byteNum b))) (Num (real n)) xs =
     Num (real (n + sum_list (map unat xs)))"
proof (induction xs arbitrary: n)
  case Nil
  then show ?case by simp
next
  case (Cons x xs)
  have "n + unat x < 2 ^ 53" using Cons.prems by simp
  then have "double (real (n + unat x)) = real (n + unat x)" by (rule double_of_nat)
  then have s: "fl (add (Num (real n)) (byteNum x)) = Num (real (n + unat x))"
    by (simp add: byteNum_def)
  have "foldl (\<lambda>a b. fl (add a (byteNum b))) (Num (real (n + unat x))) xs =
          Num (real ((n + unat x) + sum_list (map unat xs)))"
    using Cons.prems by (intro Cons.IH) (simp add: add.assoc)
  then show ?case by (simp add: s add.assoc)
qed

lemma averageFrequency_fl_mean:
  assumes "bins \<noteq> []" and "255 * length bins < 2 ^ 53"
  shows "averageFrequency_fl bins = Num (double (mean (magnitudes bins)))"
proof -
  have "0 + sum_list (map unat bins) < 2 ^ 53"
    using unat_sum_le [of bins] assms(2) by simp
  then have "foldl (\<lambda>a b. fl (add a (byteNum b))) (Num (real 0)) bins =
          Num (real (0 + sum_list (map unat bins)))"
    by (rule foldl_add_fl)
  then have "foldl (\<lambda>a b. fl (add a (byteNum b))) (Num 0) bins =
          Num (sum_list (magnitudes bins))"
    by (simp add: sum_list_magnitudes)
  then show ?thesis
    using assms(1) by (simp add: averageFrequency_fl_def mean_def magnitudes_def)
qed

lemma scale_updateShape_fl:
  "scale (updateShape_fl bins td sh) =
     fl (add (Num 1) (fl (mul (averageFrequency_fl bins) (fl radiusScaleFactor))))"
  by (simp add: updateShape_fl_def Let_def)

lemma geometry_updateShape_fl: "geometry (updateShape_fl bins td sh) = deform_fl td (geometry sh)"
  by (simp add: updateShape_fl_def Let_def)

lemma scale_full: "double (1 + double (255 * double (15 / 1000))) = 1358116762628915 / 281474976710656"
  by code_simp

text \<open>
  Claim C4, amended. For a non-empty array of bins (of fewer than 2^53 / 255 elements),
  \<open>averageFrequency\<close> is their arithmetic mean rounded to double and the scale of the
  mesh is 1 + mean * 0.015 with the product and the sum rounded to double; when all bins
  equal V the average is V exactly, and for V = 255 the scale is
  1358116762628915 / 2^48 = 4.824999999999999. The same tick deforms the geometry; the
  scale is kept beside the positions, not in them.
\<close>

theorem rounded_scale_from_mean:
  assumes "bins \<noteq> []" and "255 * length bins < 2 ^ 53"
  shows "averageFrequency_fl bins = Num (double (mean (magnitudes bins))) \<and>
         scale (updateShape_fl bins td sh) =
           Num (double (1 + double (double (mean (magnitudes bins)) * double (15 / 1000)))) \<and>
         ((\<forall>v \<in> set bins. v = V) \<longrightarrow>
            averageFrequency_fl bins = Num (real (unat V)) \<and>
            scale (updateShape_fl bins td sh) =
              Num (double (1 + double (real (unat V) * double (15 / 1000))))) \<and>
         ((\<forall>v \<in> set bins. v = 255) \<longrightarrow>
            scale (updateShape_fl bins td sh) = Num (1358116762628915 / 281474976710656)) \<and>
         geometry (updateShape_fl bins td sh) = deform_fl td (geometry sh)"
proof -
  have avg: "averageFrequency_fl bins = Num (double (mean (magnitudes bins)))"
    using assms by (rule averageFrequency_fl_mean)
  have sc: "scale (updateShape_fl bins td sh) =
           Num (double (1 + double (double (mean (magnitudes bins)) * double (15 / 1000))))"
    by (simp add: scale_updateShape_fl avg radiusScaleFactor_def)
  have const: "(\<forall>v \<in> set bins. v = V) \<longrightarrow>
            averageFrequency_fl bins = Num (real (unat V)) \<and>
            scale (updateShape_fl bins td sh) =
              Num (double (1 + double (real (unat V) * double (15 / 1000))))" for V
  proof
    assume all: "\<forall>v \<in> set bins. v = V"
    have m: "mean (magnitudes bins) = real (unat V)"
      using assms(1) all by (rule mean_constant)
    have "unat V < 2 ^ 53" using unat_byte_le [of V] by simp
    then have d: "double (real (unat V)) = real (unat V)" by (rule double_of_nat)
    show "averageFrequency_fl bins = Num (real (unat V)) \<and>
            scale (updateShape_fl bins td sh) =
              Num (double (1 + double (real (unat V) * double (15 / 1000))))"
      unfolding avg sc m d by simp
  qed
  have full: "(\<forall>v \<in> set bins. v = 255) \<longrightarrow>
            scale (updateShape_fl bins td sh) = Num (1358116762628915 / 281474976710656)"
  proof
    assume "\<forall>v \<in> set bins. v = 255"
    with const [of 255] have "scale (updateShape_fl bins td sh) =
              Num (double (1 + double (real (unat (255 :: byte)) * double (15 / 1000))))"
      by blast
    moreover have "real (unat (255 :: byte)) = 255" by simp
    ultimately show "scale (updateShape_fl bins td sh) = Num (1358116762628915 / 281474976710656)"
      by (simp only: scale_full)
  qed
  show ?thesis
    by (intro conjI avg sc const full geometry_updateShape_fl)
qed

theorem rounded_scale_from_mean_witness:
  "[255, 255, 255] \<noteq> ([] :: byte list) \<and> 255 * length [255, 255, 255 :: byte] < 2 ^ 53 \<and>
   scale (updateShape_fl [255, 255, 255] [128] restingMesh) =
     Num (1358116762628915 / 281474976710656)"
proof -
  have ne: "[255, 255, 255] \<noteq> ([] :: byte list)" by simp
  have sm: "255 * length [255, 255, 255 :: byte] < 2 ^ 53" by simp
  have "(\<forall>v \<in> set [255, 255, 255 :: byte]. v = 255) \<longrightarrow>
          scale (updateShape_fl [255, 255, 255] [128] restingMesh) =
            Num (1358116762628915 / 281474976710656)"
    using rounded_scale_from_mean [OF ne sm, of "[128]" restingMesh 255] by (elim conjE)
  then show ?thesis using sm by simp
qed

text \<open>
  Claim C4 as stated gives 4.825 for bins that are all 255. The scale main.js computes
  there is 1358116762628915 / 2^48, which is neither the real number 4.825 nor the double
  nearest to it, 5432467050515661 / 2^50, but the double just below.
\<close>

theorem scale_at_full_volume_counterexample:
  "scale (updateShape_fl [255, 255, 255] [128] restingMesh) =
     Num (1358116762628915 / 281474976710656) \<and>
   double (4825 / 1000) = 5432467050515661 / 1125899906842624 \<and>
   (1358116762628915 / 281474976710656 :: real) < 5432467050515661 / 1125899906842624 \<and>
   (1358116762628915 / 281474976710656 :: real) \<noteq> 4825 / 1000"
proof (intro conjI)
  have "scale (updateShape_fl [255, 255, 255] [128] restingMesh) =
          fl (add (Num 1) (fl (mul (averageFrequency_fl [255, 255, 255]) (fl radiusScaleFactor))))"
    by (rule scale_updateShape_fl)
  also have "\<dots> = Num (1358116762628915 / 281474976710656)"
    by code_simp
  finally show "scale (updateShape_fl [255, 255, 255] [128] restingMesh) =
     Num (1358116762628915 / 281474976710656)" .
  show "double (4825 / 1000) = 5432467050515661 / 1125899906842624"
    by code_simp
  show "(1358116762628915 / 281474976710656 :: real) < 5432467050515661 / 1125899906842624"
    by simp
  show "(1358116762628915 / 281474976710656 :: real) \<noteq> 4825 / 1000"
    by simp
qed

section \<open>The index of a vertex\<close>

text \<open>
  Claim C7. Whatever the vertex count and the non-empty length B of the time samples, the
  index read for vertex i is \<open>i mod B\<close> and it is in range; the value read there,
  \<open>td ! (i mod B)\<close>, is the one that the three components written for vertex i are
  computed from, over the reals and with the rounding of main.js alike; every vertex is
  written, the array keeps its length, and two frames that agree at the indices
  \<open>k mod B\<close> of the vertices give the same live array.
\<close>

theorem modulo_wrap_reads_in_range:
  assumes "wf_geometry g" and "td \<noteq> []" and "i < count g"
  shows "wrapIndex td i = Some (i mod length td) \<and> i mod length td < length td \<and>
         readByte td (wrapIndex td i) = byteNum (td ! (i mod length td)) \<and>
         timeDomainValue td i = Num (real (unat (td ! (i mod length td))) / 128 - 1) \<and>
         waveFactor td i =
           Num (1 + (real (unat (td ! (i mod length td))) / 128 - 1) * (35 / 1000)) \<and>
         (\<forall>a < 3. array (deform td g) ! (3 * i + a) =
                    mul (restPose g ! (3 * i + a))
                      (Num (1 + (real (unat (td ! (i mod length td))) / 128 - 1) * (35 / 1000)))) \<and>
         (\<forall>a < 3. array (deform_fl td g) ! (3 * i + a) =
                    f32 (fl (mul (restPose g ! (3 * i + a))
                      (Num (double (1 + double (double (double
                         (real (unat (td ! (i mod length td))) / 128) - 1) * double (35 / 1000)))))))) \<and>
         length (array (deform td g)) = 3 * count g \<and>
         length (array (deform_fl td g)) = 3 * count g \<and>
         (\<forall>td'. length td' = length td \<and>
                (\<forall>k < count g. td' ! (k mod length td) = td ! (k mod length td))
                \<longrightarrow> array (deform td' g) = array (deform td g))"
proof -
  have idx: "wrapIndex td i = Some (i mod length td)"
    using assms(2) by (simp add: wrapIndex_def)
  have rng: "i mod length td < length td"
    using assms(2) by simp
  have rd: "readByte td (wrapIndex td i) = byteNum (td ! (i mod length td))"
    using rng by (simp add: idx readByte_def)
  have tdv: "timeDomainValue td i = Num (real (unat (td ! (i mod length td))) / 128 - 1)"
    by (simp add: timeDomainValue_def rd byteNum_def)
  have wfac: "waveFactor td i =
           Num (1 + (real (unat (td ! (i mod length td))) / 128 - 1) * (35 / 1000))"
    using assms(2) by (rule waveFactor_Num)
  have written: "\<forall>a < 3. array (deform td g) ! (3 * i + a) =
                    mul (restPose g ! (3 * i + a))
                      (Num (1 + (real (unat (td ! (i mod length td))) / 128 - 1) * (35 / 1000)))"
  proof (intro allI impI)
    fix a :: nat assume a: "a < 3"
    then have j: "3 * i + a < 3 * count g" using assms(3) by simp
    have d: "(3 * i + a) div 3 = i" using a by simp
    have "array (deform td g) ! (3 * i + a) = mul (restPose g ! (3 * i + a)) (waveFactor td i)"
      using array_deform_nth [OF assms(1) j] d by simp
    then show "array (deform td g) ! (3 * i + a) =
                    mul (restPose g ! (3 * i + a))
                      (Num (1 + (real (unat (td ! (i mod length td))) / 128 - 1) * (35 / 1000)))"
      by (simp only: wfac)
  qed
  have written_fl: "\<forall>a < 3. array (deform_fl td g) ! (3 * i + a) =
                    f32 (fl (mul (restPose g ! (3 * i + a))
                      (Num (double (1 + double (double (double
                         (real (unat (td ! (i mod length td))) / 128) - 1) * double (35 / 1000)))))))"
  proof (intro allI impI)
    fix a :: nat assume a: "a < 3"
    then have j: "3 * i + a < 3 * count g" using assms(3) by simp
    have d: "(3 * i + a) div 3 = i" using a by simp
    have "array (deform_fl td g) ! (3 * i + a) =
            f32 (fl (mul (restPose g ! (3 * i + a)) (waveFactor_fl td i)))"
      using array_deform_fl_nth [OF assms(1) j] d by simp
    then show "array (deform_fl td g) ! (3 * i + a) =
                    f32 (fl (mul (restPose g ! (3 * i + a))
                      (Num (double (1 + double (double (double
                         (real (unat (td ! (i mod length td))) / 128) - 1) * double (35 / 1000)))))))"
      by (simp only: waveFactor_fl_Num [OF assms(2)])
  qed
  have len: "length (array (deform td g)) = 3 * count g"
    using assms(1) by (simp add: length_array_deform wf_geometry_def)
  have len_fl: "length (array (deform_fl td g)) = 3 * count g"
    using assms(1) by (simp add: length_array_deform_fl wf_geometry_def)
  have only: "\<forall>td'. length td' = length td \<and>
                (\<forall>k < count g. td' ! (k mod length td) = td ! (k mod length td))
                \<longrightarrow> array (deform td' g) = array (deform td g)"
  proof (intro allI impI)
    fix td' assume h: "length td' = length td \<and>
                (\<forall>k < count g. td' ! (k mod length td) = td ! (k mod length td))"
    from h have l: "length td' = length td" by (rule conjunct1)
    from h have e: "\<forall>k < count g. td' ! (k mod length td) = td ! (k mod length td)"
      by (rule conjunct2)
    have ne: "td' \<noteq> []" using assms(2) l by (cases td') simp_all
    have same: "waveFactor td' k = waveFactor td k" if "k < count g" for k
    proof -
      have "td' ! (k mod length td') = td ! (k mod length td)"
        using e [rule_format, OF that] by (simp only: l)
      then show ?thesis
        unfolding waveFactor_Num [OF ne] waveFactor_Num [OF assms(2)] by (rule arg_cong)
    qed
    show "array (deform td' g) = array (deform td g)"
      by (rule array_deform_eqI [OF assms(1) assms(1) refl refl]) (rule same)
  qed
  show ?thesis
    by (intro conjI idx rng rd tdv wfac written written_fl len len_fl only)
qed

theorem modulo_wrap_reads_in_range_witness:
  "wf_geometry threeVertices \<and> [128, 0] \<noteq> ([] :: byte list) \<and> (2::nat) < count threeVertices \<and>
   wrapIndex [128, 0] 2 = Some 0 \<and>
   timeDomainValue [128, 0] 2 = Num 0 \<and>
   array (deform [128, 0] threeVertices) ! 8 = Num 4 \<and>
   array (deform_fl [128, 0] threeVertices) ! 8 = Num 4 \<and>
   length (array (deform [128, 0] threeVertices)) = 9"
proof -
  have w: "wf_geometry threeVertices" by (simp add: wf_geometry_def threeVertices_def)
  have ne: "[128, 0] \<noteq> ([] :: byte list)" by simp
  have c: "2 < count threeVertices" by (simp add: threeVertices_def)
  have two: "(2::nat) < 3" by simp
  note t = modulo_wrap_reads_in_range [OF w ne c]
  have i: "wrapIndex [128, 0] 2 = Some (2 mod length [128, 0 :: byte])"
    using t by (rule conjunct1)
  have v: "timeDomainValue [128, 0] 2 =
             Num (real (unat ([128, 0 :: byte] ! (2 mod length [128, 0 :: byte]))) / 128 - 1)"
    using t [THEN conjunct2, THEN conjunct2, THEN conjunct2] by (rule conjunct1)
  have "\<forall>a < 3. array (deform [128, 0] threeVertices) ! (3 * 2 + a) =
                    mul (restPose threeVertices ! (3 * 2 + a))
                      (Num (1 + (real (unat ([128, 0 :: byte] ! (2 mod length [128, 0 :: byte]))) / 128 - 1)
                             * (35 / 1000)))"
    using t [THEN conjunct2, THEN conjunct2, THEN conjunct2, THEN conjunct2, THEN conjunct2]
    by (rule conjunct1)
  from this [rule_format, OF two]
  have x: "array (deform [128, 0] threeVertices) ! (3 * 2 + 2) =
                    mul (restPose threeVertices ! (3 * 2 + 2))
                      (Num (1 + (real (unat ([128, 0 :: byte] ! (2 mod length [128, 0 :: byte]))) / 128 - 1)
                             * (35 / 1000)))" .
  have "\<forall>a < 3. array (deform_fl [128, 0] threeVertices) ! (3 * 2 + a) =
                    f32 (fl (mul (restPose threeVertices ! (3 * 2 + a))
                      (Num (double (1 + double (double (double
                         (real (unat ([128, 0 :: byte] ! (2 mod length [128, 0 :: byte]))) / 128) - 1)
                             * double (35 / 1000)))))))"
    using t [THEN conjunct2, THEN conjunct2, THEN conjunct2, THEN conjunct2, THEN conjunct2,
             THEN conjunct2]
    by (rule conjunct1)
  from this [rule_format, OF two]
  have "array (deform_fl [128, 0] threeVertices) ! (3 * 2 + 2) =
                    f32 (fl (mul (restPose threeVertices ! (3 * 2 + 2))
                      (Num (double (1 + double (double (double
                         (real (unat ([128, 0 :: byte] ! (2 mod length [128, 0 :: byte]))) / 128) - 1)
                             * double (35 / 1000)))))))" .
  also have "\<dots> = Num 4"
    by code_simp
  finally have y: "array (deform_fl [128, 0] threeVertices) ! (3 * 2 + 2) = Num 4" .
  have l: "length (array (deform [128, 0] threeVertices)) = 3 * count threeVertices"
    using t [THEN conjunct2, THEN conjunct2, THEN conjunct2, THEN conjunct2, THEN conjunct2,
             THEN conjunct2, THEN conjunct2]
    by (rule conjunct1)
  have m: "2 mod length [128, 0 :: byte] = 0" by (simp add: numeral_2_eq_2)
  show ?thesis
    using w c i [unfolded m] v [unfolded m] x [unfolded m] y l
    by (simp add: threeVertices_def restPose_def)
qed

end
